theory Spec2Isabelle
  imports Main
begin

section \<open>Data model\<close>

text \<open>
  \<^verbatim>\<open>cloudresourcemanager.Binding\<close> and \<^verbatim>\<open>cloudresourcemanager.Policy\<close>, restricted to the
  fields that \<^verbatim>\<open>resource_iam_binding.go\<close> reads or writes. A policy holds an ordered slice
  of bindings; nothing in the type keeps two bindings from carrying the same role.
\<close>

record Binding =
  Role :: string
  Members :: "string list"

record Policy =
  Etag :: string
  Bindings :: "Binding list"

text \<open>A Go \<^verbatim>\<open>error\<close> value; \<^verbatim>\<open>nil\<close> is \<open>None\<close> of \<open>error option\<close>.\<close>

datatype error = Error string

text \<open>
  \<^verbatim>\<open>schema.ResourceData\<close> for \<^verbatim>\<open>iamBindingSchema\<close>: the resource id (\<^verbatim>\<open>d.Id()\<close>,
  \<^verbatim>\<open>d.SetId\<close>) and the keys \<^verbatim>\<open>role\<close>, \<^verbatim>\<open>members\<close> and \<^verbatim>\<open>etag\<close>. The key
  \<^verbatim>\<open>members\<close> is a \<^verbatim>\<open>schema.TypeSet\<close>: the field holds the elements that the set's
  \<^verbatim>\<open>List()\<close> returns, and writing a slice to it drops repeated elements. The order in
  which a set lists its elements is fixed by the framework; every statement below about
  members is about the set of the list, so that it does not depend on that order.
\<close>

record ResourceData =
  rd_id :: string
  rd_role :: string
  rd_members :: "string list"
  rd_etag :: string

text \<open>
  The \<^verbatim>\<open>ResourceIamUpdater\<close> interface, over a remote authority whose state has type
  \<open>'w\<close>. Fetching and committing are calls to the outside: each takes the remote state
  and returns the new one with its result.
\<close>

record 'w ResourceIamUpdater =
  GetResourceIamPolicy :: "'w \<Rightarrow> (error + Policy) \<times> 'w"
  SetResourceIamPolicy :: "Policy \<Rightarrow> 'w \<Rightarrow> error option \<times> 'w"
  GetResourceId :: string
  DescribeResource :: string

text \<open>The calls made to the updater are recorded, in order, beside the remote state.\<close>

datatype call = FetchPolicy | CommitPolicy Policy

record 'w remote =
  world :: 'w
  calls :: "call list"

definition fetchPolicy :: "'w ResourceIamUpdater \<Rightarrow> 'w remote \<Rightarrow> (error + Policy) \<times> 'w remote" where
  "fetchPolicy updater s =
     (case GetResourceIamPolicy updater (world s) of
        (r, w) \<Rightarrow> (r, \<lparr>world = w, calls = calls s @ [FetchPolicy]\<rparr>))"

definition commitPolicy :: "'w ResourceIamUpdater \<Rightarrow> Policy \<Rightarrow> 'w remote \<Rightarrow> error option \<times> 'w remote" where
  "commitPolicy updater p s =
     (case SetResourceIamPolicy updater p (world s) of
        (r, w) \<Rightarrow> (r, \<lparr>world = w, calls = calls s @ [CommitPolicy p]\<rparr>))"

fun isFetch :: "call \<Rightarrow> bool" where
  "isFetch FetchPolicy = True"
| "isFetch (CommitPolicy p) = False"

fun isCommit :: "call \<Rightarrow> bool" where
  "isCommit FetchPolicy = False"
| "isCommit (CommitPolicy p) = True"

definition fetches :: "call list \<Rightarrow> nat" where
  "fetches cs = length (filter isFetch cs)"

definition commits :: "call list \<Rightarrow> nat" where
  "commits cs = length (filter isCommit cs)"

text \<open>The calls that an operation started in state \<open>s\<close> and ended in state \<open>s'\<close> has made.\<close>

definition callsSince :: "'w remote \<Rightarrow> 'w remote \<Rightarrow> call list" where
  "callsSince s s' = drop (length (calls s)) (calls s')"


section \<open>Helpers of the repository outside this file\<close>

text \<open>
  Modelled from the spec: \<^verbatim>\<open>mergeBindings\<close> is called by the create closure and defined in
  another file of the repository. Spec 4.1: given an ordered sequence of bindings that may
  contain duplicate roles, produce a new ordered sequence where each role appears exactly
  once, with its member set equal to the union of members across all entries sharing that
  role, deduplicated. The spec fixes no order; the model keeps each role and each member
  once, at the place of its last occurrence.
\<close>

definition roleMembers :: "string \<Rightarrow> Binding list \<Rightarrow> string list" where
  "roleMembers r bs = concat (map Members (filter (\<lambda>b. Role b = r) bs))"

definition mergeBindings :: "Binding list \<Rightarrow> Binding list" where
  "mergeBindings bs =
     map (\<lambda>r. \<lparr>Role = r, Members = remdups (roleMembers r bs)\<rparr>) (remdups (map Role bs))"

text \<open>
  Modelled from the spec: \<^verbatim>\<open>iamPolicyReadModifyWrite\<close> is called by create, update and
  delete and defined in another file of the repository. Spec 4.2: (1) call the updater's
  fetch-policy and propagate any error immediately; (2) apply the mutation to the fetched
  policy in place and propagate any error of the mutation immediately without committing;
  (3) call the updater's commit-policy with the mutated policy, including its original
  etag, and propagate any commit error. The cycle runs once, with no retry. Step (3) is
  modelled by committing the mutated policy with the fetched etag written into it, which
  is the mutated policy itself for every mutation that leaves the etag alone.
\<close>

definition iamPolicyReadModifyWrite ::
  "'w ResourceIamUpdater \<Rightarrow> (Policy \<Rightarrow> error option \<times> Policy) \<Rightarrow> 'w remote \<Rightarrow> error option \<times> 'w remote" where
  "iamPolicyReadModifyWrite updater modify s =
     (case fetchPolicy updater s of
        (Inl err, s1) \<Rightarrow> (Some err, s1)
      | (Inr p, s1) \<Rightarrow>
          (case modify p of
             (Some err, p') \<Rightarrow> (Some err, s1)
           | (None, p') \<Rightarrow> commitPolicy updater (p'\<lparr>Etag := Etag p\<rparr>) s1))"


section \<open>The binding resource controller\<close>

text \<open>
  \<^verbatim>\<open>getResourceIamBinding\<close>: the declared binding, built from the keys \<^verbatim>\<open>members\<close> and
  \<^verbatim>\<open>role\<close> (\<^verbatim>\<open>convertStringArr\<close> only changes the static type of the elements).
\<close>

definition getResourceIamBinding :: "ResourceData \<Rightarrow> Binding" where
  "getResourceIamBinding d = \<lparr>Role = rd_role d, Members = rd_members d\<rparr>"

text \<open>
  The three scanning loops have the same shape:
  \<^verbatim>\<open>for pos, b := range p.Bindings { if b.Role != role { continue }; ...; break }\<close>.
  \<open>scanRole\<close> returns the position at which the loop breaks, if it does.
\<close>

fun scanRole :: "string \<Rightarrow> Binding list \<Rightarrow> nat \<Rightarrow> nat option" where
  "scanRole r [] pos = None"
| "scanRole r (b # bs) pos = (if Role b \<noteq> r then scanRole r bs (Suc pos) else Some pos)"

text \<open>The closure that create passes to the orchestrator (lines 48 to 55).\<close>

definition createModify :: "Binding \<Rightarrow> Policy \<Rightarrow> error option \<times> Policy" where
  "createModify p ep = (None, ep\<lparr>Bindings := mergeBindings (Bindings ep @ [p])\<rparr>)"

text \<open>
  The closure that update passes to the orchestrator (lines 108 to 122): the first entry
  with the declared role is overwritten in place; with none, the binding is appended.
\<close>

definition updateModify :: "Binding \<Rightarrow> Policy \<Rightarrow> error option \<times> Policy" where
  "updateModify binding p =
     (case scanRole (Role binding) (Bindings p) 0 of
        Some pos \<Rightarrow> (None, p\<lparr>Bindings := (Bindings p)[pos := binding]\<rparr>)
      | None \<Rightarrow> (None, p\<lparr>Bindings := Bindings p @ [binding]\<rparr>))"

text \<open>
  The closure that delete passes to the orchestrator (lines 140 to 156). \<^verbatim>\<open>toRemove\<close>
  starts at \<open>-1\<close> and is set to the position of the first entry with the declared role;
  the slice expression cuts that one position out.
\<close>

definition deleteModify :: "Binding \<Rightarrow> Policy \<Rightarrow> error option \<times> Policy" where
  "deleteModify binding p =
     (let toRemove = (case scanRole (Role binding) (Bindings p) 0 of
                        None \<Rightarrow> - 1
                      | Some pos \<Rightarrow> int pos)
      in if toRemove < 0 then (None, p)
         else (None, p\<lparr>Bindings := take (nat toRemove) (Bindings p)
                                    @ drop (nat (toRemove + 1)) (Bindings p)\<rparr>))"

text \<open>
  The loop of read (lines 79 to 86): a pointer to the first binding with the declared
  role, \<^verbatim>\<open>nil\<close> when there is none.
\<close>

fun findBinding :: "string \<Rightarrow> Binding list \<Rightarrow> Binding option" where
  "findBinding r [] = None"
| "findBinding r (b # bs) = (if Role b \<noteq> r then findBinding r bs else Some b)"

text \<open>
  The four operations. Each takes the updater factory, the configuration, the resource
  data and the remote state with its call log; it returns the error (or \<^verbatim>\<open>nil\<close>), the
  resource data as the operation left it, and the remote state.
\<close>

definition resourceIamBindingRead ::
  "(ResourceData \<Rightarrow> 'c \<Rightarrow> error + 'w ResourceIamUpdater) \<Rightarrow> 'c \<Rightarrow> ResourceData \<Rightarrow> 'w remote
     \<Rightarrow> error option \<times> ResourceData \<times> 'w remote" where
  "resourceIamBindingRead newUpdaterFunc config d s =
     (case newUpdaterFunc d config of
        Inl err \<Rightarrow> (Some err, d, s)
      | Inr updater \<Rightarrow>
          (let eBinding = getResourceIamBinding d in
           case fetchPolicy updater s of
             (Inl err, s1) \<Rightarrow> (Some err, d, s1)
           | (Inr p, s1) \<Rightarrow>
               (case findBinding (Role eBinding) (Bindings p) of
                  None \<Rightarrow> (None, d\<lparr>rd_id := ''''\<rparr>, s1)
                | Some binding \<Rightarrow>
                    (None, d\<lparr>rd_etag := Etag p,
                              rd_members := remdups (Members binding),
                              rd_role := Role binding\<rparr>, s1))))"

definition resourceIamBindingCreate ::
  "(ResourceData \<Rightarrow> 'c \<Rightarrow> error + 'w ResourceIamUpdater) \<Rightarrow> 'c \<Rightarrow> ResourceData \<Rightarrow> 'w remote
     \<Rightarrow> error option \<times> ResourceData \<times> 'w remote" where
  "resourceIamBindingCreate newUpdaterFunc config d s =
     (case newUpdaterFunc d config of
        Inl err \<Rightarrow> (Some err, d, s)
      | Inr updater \<Rightarrow>
          (let p = getResourceIamBinding d in
           case iamPolicyReadModifyWrite updater (createModify p) s of
             (Some err, s1) \<Rightarrow> (Some err, d, s1)
           | (None, s1) \<Rightarrow>
               resourceIamBindingRead newUpdaterFunc config
                 (d\<lparr>rd_id := GetResourceId updater @ ''/'' @ Role p\<rparr>) s1))"

definition resourceIamBindingUpdate ::
  "(ResourceData \<Rightarrow> 'c \<Rightarrow> error + 'w ResourceIamUpdater) \<Rightarrow> 'c \<Rightarrow> ResourceData \<Rightarrow> 'w remote
     \<Rightarrow> error option \<times> ResourceData \<times> 'w remote" where
  "resourceIamBindingUpdate newUpdaterFunc config d s =
     (case newUpdaterFunc d config of
        Inl err \<Rightarrow> (Some err, d, s)
      | Inr updater \<Rightarrow>
          (let binding = getResourceIamBinding d in
           case iamPolicyReadModifyWrite updater (updateModify binding) s of
             (Some err, s1) \<Rightarrow> (Some err, d, s1)
           | (None, s1) \<Rightarrow> resourceIamBindingRead newUpdaterFunc config d s1))"

definition resourceIamBindingDelete ::
  "(ResourceData \<Rightarrow> 'c \<Rightarrow> error + 'w ResourceIamUpdater) \<Rightarrow> 'c \<Rightarrow> ResourceData \<Rightarrow> 'w remote
     \<Rightarrow> error option \<times> ResourceData \<times> 'w remote" where
  "resourceIamBindingDelete newUpdaterFunc config d s =
     (case newUpdaterFunc d config of
        Inl err \<Rightarrow> (Some err, d, s)
      | Inr updater \<Rightarrow>
          (let binding = getResourceIamBinding d in
           case iamPolicyReadModifyWrite updater (deleteModify binding) s of
             (Some err, s1) \<Rightarrow> (Some err, d, s1)
           | (None, s1) \<Rightarrow> resourceIamBindingRead newUpdaterFunc config d s1))"


section \<open>A remote authority that stores one policy\<close>

text \<open>
  A concrete updater for evaluating the operations: the remote state is the stored
  policy, a fetch returns it, and a commit stores the committed bindings under a new etag.
\<close>

definition storeUpdater :: "string \<Rightarrow> Policy ResourceIamUpdater" where
  "storeUpdater rid =
     \<lparr>GetResourceIamPolicy = (\<lambda>w. (Inr w, w)),
      SetResourceIamPolicy = (\<lambda>p w. (None, p\<lparr>Etag := Etag p @ ''+''\<rparr>)),
      GetResourceId = rid,
      DescribeResource = rid\<rparr>"

text \<open>An updater whose fetch fails, and a mutation that fails.\<close>

definition brokenUpdater :: "Policy ResourceIamUpdater" where
  "brokenUpdater =
     \<lparr>GetResourceIamPolicy = (\<lambda>w. (Inl (Error ''fetch failed''), w)),
      SetResourceIamPolicy = (\<lambda>p w. (None, p)),
      GetResourceId = ''broken'',
      DescribeResource = ''broken''\<rparr>"

definition failingModify :: "Policy \<Rightarrow> error option \<times> Policy" where
  "failingModify p = (Some (Error ''mutation failed''), p)"

definition storeUpdaterFunc :: "string \<Rightarrow> ResourceData \<Rightarrow> unit \<Rightarrow> error + Policy ResourceIamUpdater" where
  "storeUpdaterFunc rid d config = Inr (storeUpdater rid)"


section \<open>Facts about the scans and the merge\<close>

lemma scanRole_split:
  "r \<notin> Role ` set pre \<Longrightarrow> Role b = r \<Longrightarrow> scanRole r (pre @ b # post) k = Some (k + length pre)"
  by (induction pre arbitrary: k) auto

lemma scanRole_absent: "r \<notin> Role ` set bs \<Longrightarrow> scanRole r bs k = None"
  by (induction bs arbitrary: k) auto

lemma first_entry_split:
  assumes "r \<in> Role ` set bs"
  obtains pre b post where "bs = pre @ b # post" "Role b = r" "r \<notin> Role ` set pre"
proof -
  from assms have "\<exists>x\<in>set bs. Role x = r" by auto
  then obtain pre b post where "bs = pre @ b # post" "Role b = r" "\<forall>y\<in>set pre. Role y \<noteq> r"
    by (auto dest!: split_list_first_prop)
  then show thesis using that [of pre b post] by blast
qed

lemma first_index_split:
  assumes "bs = pre @ b # post" "r \<notin> Role ` set pre" "Role b = r"
    and "i < length bs" "Role (bs ! i) = r" "\<forall>j<i. Role (bs ! j) \<noteq> r"
  shows "i = length pre"
proof -
  have "\<not> i < length pre"
  proof
    assume "i < length pre"
    then have "bs ! i \<in> set pre" using assms(1) by (simp add: nth_append)
    with assms(2,5) show False by auto
  qed
  moreover have "\<not> length pre < i"
  proof
    assume "length pre < i"
    with assms(6) have "Role (bs ! length pre) \<noteq> r" by blast
    moreover have "bs ! length pre = b" using assms(1) by simp
    ultimately show False using assms(3) by simp
  qed
  ultimately show ?thesis by simp
qed


lemma updateModify_found:
  assumes "Bindings p = pre @ b # post" "Role b = Role binding" "Role binding \<notin> Role ` set pre"
  shows "updateModify binding p = (None, p\<lparr>Bindings := pre @ binding # post\<rparr>)"
  using assms scanRole_split [of "Role binding" pre b post 0]
  by (simp add: updateModify_def)

lemma updateModify_absent:
  assumes "Role binding \<notin> Role ` set (Bindings p)"
  shows "updateModify binding p = (None, p\<lparr>Bindings := Bindings p @ [binding]\<rparr>)"
  using assms scanRole_absent [of "Role binding" "Bindings p" 0]
  by (simp add: updateModify_def)

lemma deleteModify_found:
  assumes "Bindings p = pre @ b # post" "Role b = Role binding" "Role binding \<notin> Role ` set pre"
  shows "deleteModify binding p = (None, p\<lparr>Bindings := pre @ post\<rparr>)"
proof -
  have n: "nat (int (length pre) + 1) = Suc (length pre)" by simp
  show ?thesis
    using assms scanRole_split [of "Role binding" pre b post 0]
    by (simp add: deleteModify_def n)
qed

lemma deleteModify_absent:
  assumes "Role binding \<notin> Role ` set (Bindings p)"
  shows "deleteModify binding p = (None, p)"
  using assms scanRole_absent [of "Role binding" "Bindings p" 0]
  by (simp add: deleteModify_def)

lemma findBinding_split:
  "r \<notin> Role ` set pre \<Longrightarrow> Role b = r \<Longrightarrow> findBinding r (pre @ b # post) = Some b"
  by (induction pre) auto

lemma findBinding_absent: "r \<notin> Role ` set bs \<Longrightarrow> findBinding r bs = None"
  by (induction bs) auto

lemma roleMembers_append: "roleMembers r (xs @ ys) = roleMembers r xs @ roleMembers r ys"
  by (simp add: roleMembers_def)

lemma roleMembers_absent: "r \<notin> Role ` set bs \<Longrightarrow> roleMembers r bs = []"
  by (induction bs) (auto simp: roleMembers_def)

lemma roleMembers_Cons:
  "roleMembers r (b # bs) = (if Role b = r then Members b @ roleMembers r bs else roleMembers r bs)"
  by (simp add: roleMembers_def)

lemma filter_role_absent: "r \<notin> Role ` set bs \<Longrightarrow> filter (\<lambda>b. Role b = r) bs = []"
  by (induction bs) auto

lemma roleMembers_Nil: "roleMembers r [] = []"
  by (simp add: roleMembers_def)

lemma filter_eq_distinct:
  "distinct xs \<Longrightarrow> filter (\<lambda>x. x = r) xs = (if r \<in> set xs then [r] else [])"
  by (induction xs) auto

lemma map_Role_mergeBindings: "map Role (mergeBindings bs) = remdups (map Role bs)"
  by (simp add: mergeBindings_def comp_def)

lemma roleMembers_mergeBindings:
  "roleMembers r (mergeBindings bs) = remdups (roleMembers r bs)"
proof (cases "r \<in> Role ` set bs")
  case False
  then have "r \<notin> Role ` set (mergeBindings bs)"
    using map_Role_mergeBindings [of bs] by (metis set_map set_remdups)
  then show ?thesis using False by (simp add: roleMembers_absent)
next
  case True
  have "filter (\<lambda>b. Role b = r) (mergeBindings bs)
          = map (\<lambda>r. \<lparr>Role = r, Members = remdups (roleMembers r bs)\<rparr>)
              (filter (\<lambda>x. x = r) (remdups (map Role bs)))"
    by (simp add: mergeBindings_def filter_map comp_def)
  also have "\<dots> = [\<lparr>Role = r, Members = remdups (roleMembers r bs)\<rparr>]"
    using True by (simp add: filter_eq_distinct)
  finally show ?thesis by (simp add: roleMembers_def)
qed


section \<open>Update\<close>

text \<open>
  The claim read on every policy: after the update closure, the members that the policy
  grants the declared role are exactly the declared members. It fails on a policy that
  holds the role twice: only the first entry is overwritten, and the member of the second
  entry keeps the role.
\<close>

theorem update_membership_counterexample:
  "set (roleMembers ''viewer'' (Bindings (snd (updateModify \<lparr>Role = ''viewer'', Members = [''z'']\<rparr>
        \<lparr>Etag = ''e'', Bindings = [\<lparr>Role = ''viewer'', Members = [''x'']\<rparr>,
                                   \<lparr>Role = ''viewer'', Members = [''y'']\<rparr>]\<rparr>))))
   \<noteq> set (Members \<lparr>Role = ''viewer'', Members = [''z'']\<rparr>)"
  by (simp add: updateModify_def roleMembers_def)

text \<open>
  C1 (amended). On every fetched policy the update closure returns no error, leaves the
  etag alone, overwrites the first entry whose role is the declared role with the declared
  binding (every other position unchanged), and appends the declared binding when no entry
  has that role; the first entry with the declared role is then the declared binding
  itself. When the fetched policy holds the declared role at most once, the members of
  that role after the update are exactly the declared members.
\<close>

theorem update_replaces_first_entry:
  "fst (updateModify binding p) = None
   \<and> Etag (snd (updateModify binding p)) = Etag p
   \<and> (\<forall>i<length (Bindings p).
         Role (Bindings p ! i) = Role binding \<and> (\<forall>j<i. Role (Bindings p ! j) \<noteq> Role binding)
         \<longrightarrow> Bindings (snd (updateModify binding p)) = (Bindings p)[i := binding])
   \<and> (Role binding \<notin> Role ` set (Bindings p)
         \<longrightarrow> Bindings (snd (updateModify binding p)) = Bindings p @ [binding])
   \<and> findBinding (Role binding) (Bindings (snd (updateModify binding p))) = Some binding
   \<and> (length (filter (\<lambda>b. Role b = Role binding) (Bindings p)) \<le> 1
         \<longrightarrow> set (roleMembers (Role binding) (Bindings (snd (updateModify binding p))))
             = set (Members binding))"
proof (cases "Role binding \<in> Role ` set (Bindings p)")
  case False
  then have u: "updateModify binding p = (None, p\<lparr>Bindings := Bindings p @ [binding]\<rparr>)"
    by (rule updateModify_absent)
  have no: "\<And>i. i < length (Bindings p) \<Longrightarrow> Role (Bindings p ! i) \<noteq> Role binding"
    using False by (metis image_eqI nth_mem)
  show ?thesis
    using False no
    by (simp add: u findBinding_split roleMembers_append roleMembers_absent roleMembers_Cons)
next
  case True
  then obtain pre b post where
    sp: "Bindings p = pre @ b # post" "Role b = Role binding" "Role binding \<notin> Role ` set pre"
    by (rule first_entry_split)
  then have u: "updateModify binding p = (None, p\<lparr>Bindings := pre @ binding # post\<rparr>)"
    by (rule updateModify_found)
  have idx: "\<And>i. i < length (Bindings p) \<Longrightarrow> Role (Bindings p ! i) = Role binding
               \<Longrightarrow> \<forall>j<i. Role (Bindings p ! j) \<noteq> Role binding \<Longrightarrow> i = length pre"
    using sp first_index_split [of "Bindings p" pre b post "Role binding"] by blast
  have upd: "(Bindings p)[length pre := binding] = pre @ binding # post"
    using sp(1) by simp
  have one: "length (filter (\<lambda>b. Role b = Role binding) (Bindings p)) \<le> 1
               \<Longrightarrow> roleMembers (Role binding) post = []"
  proof -
    assume "length (filter (\<lambda>b. Role b = Role binding) (Bindings p)) \<le> 1"
    then have "filter (\<lambda>b. Role b = Role binding) post = []"
      using sp by (simp add: filter_role_absent)
    then show ?thesis by (simp add: roleMembers_def)
  qed
  show ?thesis
    using True idx upd one sp(3)
    by (auto simp: u findBinding_split roleMembers_append roleMembers_absent roleMembers_Cons)
qed

theorem update_replaces_first_entry_witness:
  "length (filter (\<lambda>b. Role b = ''viewer'')
       (Bindings \<lparr>Etag = ''e'', Bindings = [\<lparr>Role = ''owner'', Members = [''w'']\<rparr>,
                                             \<lparr>Role = ''viewer'', Members = [''x'', ''y'']\<rparr>]\<rparr>)) \<le> 1
   \<and> Bindings (snd (updateModify \<lparr>Role = ''viewer'', Members = [''y'', ''z'']\<rparr>
        \<lparr>Etag = ''e'', Bindings = [\<lparr>Role = ''owner'', Members = [''w'']\<rparr>,
                                   \<lparr>Role = ''viewer'', Members = [''x'', ''y'']\<rparr>]\<rparr>))
       = [\<lparr>Role = ''owner'', Members = [''w'']\<rparr>, \<lparr>Role = ''viewer'', Members = [''y'', ''z'']\<rparr>]
   \<and> set (roleMembers ''viewer'' (Bindings (snd (updateModify \<lparr>Role = ''viewer'', Members = [''y'', ''z'']\<rparr>
        \<lparr>Etag = ''e'', Bindings = [\<lparr>Role = ''owner'', Members = [''w'']\<rparr>,
                                   \<lparr>Role = ''viewer'', Members = [''x'', ''y'']\<rparr>]\<rparr>))))
       = {''y'', ''z''}"
  using update_replaces_first_entry [of "\<lparr>Role = ''viewer'', Members = [''y'', ''z'']\<rparr>"
      "\<lparr>Etag = ''e'', Bindings = [\<lparr>Role = ''owner'', Members = [''w'']\<rparr>,
                                 \<lparr>Role = ''viewer'', Members = [''x'', ''y'']\<rparr>]\<rparr>"]
  by (simp add: updateModify_def)


section \<open>Create\<close>

text \<open>
  C2. On every fetched policy the create closure returns no error, leaves the etag alone
  and sets the binding list to the merge of the existing list with the declared binding
  appended; the members of the declared role afterwards include every member the role had
  before and every declared member, so create removes no member of that role.
\<close>

theorem create_never_shrinks:
  "fst (createModify binding p) = None
   \<and> Etag (snd (createModify binding p)) = Etag p
   \<and> Bindings (snd (createModify binding p)) = mergeBindings (Bindings p @ [binding])
   \<and> set (roleMembers (Role binding) (Bindings p)) \<union> set (Members binding)
       \<subseteq> set (roleMembers (Role binding) (Bindings (snd (createModify binding p))))"
proof -
  have "set (roleMembers (Role binding) (mergeBindings (Bindings p @ [binding])))
          = set (roleMembers (Role binding) (Bindings p)) \<union> set (Members binding)"
    by (simp add: roleMembers_mergeBindings roleMembers_append roleMembers_Cons roleMembers_Nil)
  then show ?thesis by (simp add: createModify_def)
qed

theorem create_never_shrinks_witness:
  "set (roleMembers ''viewer'' [\<lparr>Role = ''viewer'', Members = [''x'', ''y'']\<rparr>])
     \<union> set [''y'', ''z''] = {''x'', ''y'', ''z''}
   \<and> Bindings (snd (createModify \<lparr>Role = ''viewer'', Members = [''y'', ''z'']\<rparr>
        \<lparr>Etag = ''e'', Bindings = [\<lparr>Role = ''viewer'', Members = [''x'', ''y'']\<rparr>]\<rparr>))
       = [\<lparr>Role = ''viewer'', Members = [''x'', ''y'', ''z'']\<rparr>]"
  using create_never_shrinks [of "\<lparr>Role = ''viewer'', Members = [''y'', ''z'']\<rparr>"
      "\<lparr>Etag = ''e'', Bindings = [\<lparr>Role = ''viewer'', Members = [''x'', ''y'']\<rparr>]\<rparr>"]
  by (auto simp: mergeBindings_def roleMembers_def)

text \<open>The same holds for every other role of the policy.\<close>

lemma createModify_keeps_roleMembers:
  "set (roleMembers r (Bindings p)) \<subseteq> set (roleMembers r (Bindings (snd (createModify binding p))))"
  by (simp add: createModify_def roleMembers_mergeBindings roleMembers_append)


section \<open>One entry per role\<close>

text \<open>
  C3. When every role of the starting policy appears in at most one binding entry, the
  binding list that the closure of create, of update and of delete leaves has at most one
  entry per role.
\<close>

theorem uniqueness_preserved:
  assumes "distinct (map Role (Bindings p))"
  shows "distinct (map Role (Bindings (snd (createModify binding p))))
       \<and> distinct (map Role (Bindings (snd (updateModify binding p))))
       \<and> distinct (map Role (Bindings (snd (deleteModify binding p))))"
proof -
  have c: "distinct (map Role (Bindings (snd (createModify binding p))))"
    by (simp add: createModify_def map_Role_mergeBindings)
  have "distinct (map Role (Bindings (snd (updateModify binding p))))
      \<and> distinct (map Role (Bindings (snd (deleteModify binding p))))"
  proof (cases "Role binding \<in> Role ` set (Bindings p)")
    case False
    then show ?thesis
      using assms by (simp add: updateModify_absent deleteModify_absent)
  next
    case True
    then obtain pre b post where
      sp: "Bindings p = pre @ b # post" "Role b = Role binding" "Role binding \<notin> Role ` set pre"
      by (rule first_entry_split)
    show ?thesis
      using assms sp by (simp add: updateModify_found [OF sp] deleteModify_found [OF sp])
  qed
  with c show ?thesis by simp
qed

theorem uniqueness_preserved_witness:
  "distinct (map Role [\<lparr>Role = ''owner'', Members = [''w'']\<rparr>,
                       \<lparr>Role = ''viewer'', Members = [''x'', ''y'']\<rparr>])
   \<and> distinct (map Role (Bindings (snd (createModify \<lparr>Role = ''viewer'', Members = [''y'', ''z'']\<rparr>
        \<lparr>Etag = ''e'', Bindings = [\<lparr>Role = ''owner'', Members = [''w'']\<rparr>,
                                   \<lparr>Role = ''viewer'', Members = [''x'', ''y'']\<rparr>]\<rparr>))))
   \<and> distinct (map Role (Bindings (snd (updateModify \<lparr>Role = ''viewer'', Members = [''y'', ''z'']\<rparr>
        \<lparr>Etag = ''e'', Bindings = [\<lparr>Role = ''owner'', Members = [''w'']\<rparr>,
                                   \<lparr>Role = ''viewer'', Members = [''x'', ''y'']\<rparr>]\<rparr>))))
   \<and> distinct (map Role (Bindings (snd (deleteModify \<lparr>Role = ''viewer'', Members = [''y'', ''z'']\<rparr>
        \<lparr>Etag = ''e'', Bindings = [\<lparr>Role = ''owner'', Members = [''w'']\<rparr>,
                                   \<lparr>Role = ''viewer'', Members = [''x'', ''y'']\<rparr>]\<rparr>))))"
  using uniqueness_preserved [of
      "\<lparr>Etag = ''e'', Bindings = [\<lparr>Role = ''owner'', Members = [''w'']\<rparr>,
                                 \<lparr>Role = ''viewer'', Members = [''x'', ''y'']\<rparr>]\<rparr>"
      "\<lparr>Role = ''viewer'', Members = [''y'', ''z'']\<rparr>"]
  by simp


section \<open>Delete\<close>

text \<open>
  C4. On a fetched policy with no entry for the declared role the delete closure returns
  the policy unchanged and no error; applied again to its own result it returns the same
  policy and no error.
\<close>

theorem delete_absent_noop:
  assumes "Role binding \<notin> Role ` set (Bindings p)"
  shows "deleteModify binding p = (None, p)
       \<and> deleteModify binding (snd (deleteModify binding p)) = (None, p)"
proof -
  from assms have "deleteModify binding p = (None, p)" by (rule deleteModify_absent)
  then show ?thesis by simp
qed

theorem delete_absent_noop_witness:
  "''editor'' \<notin> Role ` set [\<lparr>Role = ''viewer'', Members = [''x'', ''y'']\<rparr>]
   \<and> deleteModify \<lparr>Role = ''editor'', Members = [''x'']\<rparr>
        \<lparr>Etag = ''e'', Bindings = [\<lparr>Role = ''viewer'', Members = [''x'', ''y'']\<rparr>]\<rparr>
       = (None, \<lparr>Etag = ''e'', Bindings = [\<lparr>Role = ''viewer'', Members = [''x'', ''y'']\<rparr>]\<rparr>)
   \<and> deleteModify \<lparr>Role = ''editor'', Members = [''x'']\<rparr>
        (snd (deleteModify \<lparr>Role = ''editor'', Members = [''x'']\<rparr>
           \<lparr>Etag = ''e'', Bindings = [\<lparr>Role = ''viewer'', Members = [''x'', ''y'']\<rparr>]\<rparr>))
       = (None, \<lparr>Etag = ''e'', Bindings = [\<lparr>Role = ''viewer'', Members = [''x'', ''y'']\<rparr>]\<rparr>)"
  using delete_absent_noop [of "\<lparr>Role = ''editor'', Members = [''x'']\<rparr>"
      "\<lparr>Etag = ''e'', Bindings = [\<lparr>Role = ''viewer'', Members = [''x'', ''y'']\<rparr>]\<rparr>"]
  by simp

text \<open>
  C10. On a fetched policy with more than one entry for the declared role the delete
  closure cuts out the entry at the first position with that role and nothing else: every
  later entry with the declared role is still in the resulting policy, and there is one.
\<close>

theorem delete_removes_first_only:
  assumes "1 < length (filter (\<lambda>b. Role b = Role binding) (Bindings p))"
  shows "\<exists>i<length (Bindings p).
           Role (Bindings p ! i) = Role binding
         \<and> (\<forall>j<i. Role (Bindings p ! j) \<noteq> Role binding)
         \<and> deleteModify binding p
             = (None, p\<lparr>Bindings := take i (Bindings p) @ drop (Suc i) (Bindings p)\<rparr>)
         \<and> filter (\<lambda>b. Role b = Role binding) (Bindings (snd (deleteModify binding p)))
             = filter (\<lambda>b. Role b = Role binding) (drop (Suc i) (Bindings p))
         \<and> filter (\<lambda>b. Role b = Role binding) (drop (Suc i) (Bindings p)) \<noteq> []"
proof -
  from assms have "filter (\<lambda>b. Role b = Role binding) (Bindings p) \<noteq> []" by auto
  then have "Role binding \<in> Role ` set (Bindings p)"
    using filter_role_absent by blast
  then obtain pre b post where
    sp: "Bindings p = pre @ b # post" "Role b = Role binding" "Role binding \<notin> Role ` set pre"
    by (rule first_entry_split)
  have d: "deleteModify binding p = (None, p\<lparr>Bindings := pre @ post\<rparr>)"
    using sp by (rule deleteModify_found)
  have pre: "filter (\<lambda>b. Role b = Role binding) pre = []"
    using sp(3) by (rule filter_role_absent)
  have post: "filter (\<lambda>b. Role b = Role binding) post \<noteq> []"
    using assms sp(1,2) pre by auto
  have before: "\<forall>j<length pre. Role (Bindings p ! j) \<noteq> Role binding"
  proof (intro allI impI)
    fix j assume "j < length pre"
    then have "Bindings p ! j \<in> set pre" using sp(1) by (simp add: nth_append)
    with sp(3) show "Role (Bindings p ! j) \<noteq> Role binding" by (metis image_eqI)
  qed
  have "length pre < length (Bindings p)" using sp(1) by simp
  moreover have "Role (Bindings p ! length pre) = Role binding" using sp(1,2) by simp
  moreover have "deleteModify binding p
      = (None, p\<lparr>Bindings := take (length pre) (Bindings p) @ drop (Suc (length pre)) (Bindings p)\<rparr>)"
    using d sp(1) by simp
  moreover have "filter (\<lambda>b. Role b = Role binding) (Bindings (snd (deleteModify binding p)))
      = filter (\<lambda>b. Role b = Role binding) (drop (Suc (length pre)) (Bindings p))"
    using d sp(1) pre by simp
  moreover have "filter (\<lambda>b. Role b = Role binding) (drop (Suc (length pre)) (Bindings p)) \<noteq> []"
    using post sp(1) by simp
  ultimately show ?thesis using before by blast
qed

theorem delete_removes_first_only_witness:
  "1 < length (filter (\<lambda>b. Role b = ''viewer'')
         [\<lparr>Role = ''viewer'', Members = [''x'']\<rparr>, \<lparr>Role = ''owner'', Members = [''w'']\<rparr>,
          \<lparr>Role = ''viewer'', Members = [''y'']\<rparr>])
   \<and> deleteModify \<lparr>Role = ''viewer'', Members = [''x'']\<rparr>
        \<lparr>Etag = ''e'', Bindings = [\<lparr>Role = ''viewer'', Members = [''x'']\<rparr>,
                                   \<lparr>Role = ''owner'', Members = [''w'']\<rparr>,
                                   \<lparr>Role = ''viewer'', Members = [''y'']\<rparr>]\<rparr>
       = (None, \<lparr>Etag = ''e'', Bindings = [\<lparr>Role = ''owner'', Members = [''w'']\<rparr>,
                                          \<lparr>Role = ''viewer'', Members = [''y'']\<rparr>]\<rparr>)"
  using delete_removes_first_only [of "\<lparr>Role = ''viewer'', Members = [''x'']\<rparr>"
      "\<lparr>Etag = ''e'', Bindings = [\<lparr>Role = ''viewer'', Members = [''x'']\<rparr>,
                                 \<lparr>Role = ''owner'', Members = [''w'']\<rparr>,
                                 \<lparr>Role = ''viewer'', Members = [''y'']\<rparr>]\<rparr>"]
  by (simp add: deleteModify_def)


section \<open>The read-modify-write cycle\<close>

lemma iamPolicyReadModifyWrite_fetch_error:
  assumes "GetResourceIamPolicy u (world s) = (Inl e, w)"
  shows "iamPolicyReadModifyWrite u modify s = (Some e, \<lparr>world = w, calls = calls s @ [FetchPolicy]\<rparr>)"
  using assms by (simp add: iamPolicyReadModifyWrite_def fetchPolicy_def)

lemma iamPolicyReadModifyWrite_modify_error:
  assumes "GetResourceIamPolicy u (world s) = (Inr p, w)" "modify p = (Some e, p')"
  shows "iamPolicyReadModifyWrite u modify s = (Some e, \<lparr>world = w, calls = calls s @ [FetchPolicy]\<rparr>)"
  using assms by (simp add: iamPolicyReadModifyWrite_def fetchPolicy_def)

lemma iamPolicyReadModifyWrite_commit:
  assumes "GetResourceIamPolicy u (world s) = (Inr p, w)" "modify p = (None, p')"
  shows "iamPolicyReadModifyWrite u modify s =
           (fst (SetResourceIamPolicy u (p'\<lparr>Etag := Etag p\<rparr>) w),
            \<lparr>world = snd (SetResourceIamPolicy u (p'\<lparr>Etag := Etag p\<rparr>) w),
             calls = calls s @ [FetchPolicy, CommitPolicy (p'\<lparr>Etag := Etag p\<rparr>)]\<rparr>)"
  using assms
  by (simp add: iamPolicyReadModifyWrite_def fetchPolicy_def commitPolicy_def split: prod.splits)

lemma callsSince_append: "calls s' = calls s @ cs \<Longrightarrow> callsSince s s' = cs"
  by (simp add: callsSince_def)

text \<open>
  C5. For every updater and every mutation function: a fetch error is returned at once,
  with the fetch as the only call; an error of the mutation is returned at once, with the
  fetch as the only call; when both succeed the updater's commit is called once, after the
  fetch, with the bindings the mutation left and the etag that was fetched, and its result
  is the result of the cycle. So a commit is among the calls of the cycle if and only if
  the fetch and the mutation both succeeded.
\<close>

theorem orchestrator_commits_iff:
  "(\<forall>e w. GetResourceIamPolicy u (world s) = (Inl e, w) \<longrightarrow>
        iamPolicyReadModifyWrite u modify s
          = (Some e, \<lparr>world = w, calls = calls s @ [FetchPolicy]\<rparr>))
   \<and> (\<forall>p w e p'. GetResourceIamPolicy u (world s) = (Inr p, w) \<and> modify p = (Some e, p') \<longrightarrow>
        iamPolicyReadModifyWrite u modify s
          = (Some e, \<lparr>world = w, calls = calls s @ [FetchPolicy]\<rparr>))
   \<and> (\<forall>p w p'. GetResourceIamPolicy u (world s) = (Inr p, w) \<and> modify p = (None, p') \<longrightarrow>
        iamPolicyReadModifyWrite u modify s
          = (fst (SetResourceIamPolicy u \<lparr>Etag = Etag p, Bindings = Bindings p'\<rparr> w),
             \<lparr>world = snd (SetResourceIamPolicy u \<lparr>Etag = Etag p, Bindings = Bindings p'\<rparr> w),
              calls = calls s @ [FetchPolicy, CommitPolicy \<lparr>Etag = Etag p, Bindings = Bindings p'\<rparr>]\<rparr>))
   \<and> ((\<exists>q. CommitPolicy q \<in> set (callsSince s (snd (iamPolicyReadModifyWrite u modify s))))
        \<longleftrightarrow> (\<exists>p. fst (GetResourceIamPolicy u (world s)) = Inr p \<and> fst (modify p) = None))"
proof -
  obtain r w where f: "GetResourceIamPolicy u (world s) = (r, w)" by (cases "GetResourceIamPolicy u (world s)")
  show ?thesis
  proof (cases r)
    case (Inl e)
    with f have g: "GetResourceIamPolicy u (world s) = (Inl e, w)" by simp
    show ?thesis
      by (simp add: g iamPolicyReadModifyWrite_fetch_error [OF g] callsSince_def)
  next
    case (Inr p)
    with f have g: "GetResourceIamPolicy u (world s) = (Inr p, w)" by simp
    obtain m p' where h: "modify p = (m, p')" by (cases "modify p")
    have eq: "p'\<lparr>Etag := Etag p\<rparr> = \<lparr>Etag = Etag p, Bindings = Bindings p'\<rparr>" by simp
    show ?thesis
    proof (cases m)
      case None
      with h have h': "modify p = (None, p')" by simp
      show ?thesis
        using iamPolicyReadModifyWrite_commit [where modify = modify, OF g h']
        by (simp add: g h' eq callsSince_def)
    next
      case (Some e)
      with h have h': "modify p = (Some e, p')" by simp
      show ?thesis
        using iamPolicyReadModifyWrite_modify_error [where modify = modify, OF g h']
        by (simp add: g h' callsSince_def)
    qed
  qed
qed

theorem orchestrator_commits_iff_witness:
  "iamPolicyReadModifyWrite brokenUpdater (updateModify \<lparr>Role = ''viewer'', Members = [''z'']\<rparr>)
      \<lparr>world = \<lparr>Etag = ''e'', Bindings = []\<rparr>, calls = []\<rparr>
     = (Some (Error ''fetch failed''), \<lparr>world = \<lparr>Etag = ''e'', Bindings = []\<rparr>, calls = [FetchPolicy]\<rparr>)
   \<and> iamPolicyReadModifyWrite (storeUpdater ''projects/p'') failingModify
      \<lparr>world = \<lparr>Etag = ''e'', Bindings = []\<rparr>, calls = []\<rparr>
     = (Some (Error ''mutation failed''), \<lparr>world = \<lparr>Etag = ''e'', Bindings = []\<rparr>, calls = [FetchPolicy]\<rparr>)
   \<and> iamPolicyReadModifyWrite (storeUpdater ''projects/p'')
        (updateModify \<lparr>Role = ''viewer'', Members = [''z'']\<rparr>)
        \<lparr>world = \<lparr>Etag = ''e'', Bindings = []\<rparr>, calls = []\<rparr>
     = (None, \<lparr>world = \<lparr>Etag = ''e+'', Bindings = [\<lparr>Role = ''viewer'', Members = [''z'']\<rparr>]\<rparr>,
               calls = [FetchPolicy,
                        CommitPolicy \<lparr>Etag = ''e'', Bindings = [\<lparr>Role = ''viewer'', Members = [''z'']\<rparr>]\<rparr>]\<rparr>)"
  using
    orchestrator_commits_iff [of brokenUpdater "\<lparr>world = \<lparr>Etag = ''e'', Bindings = []\<rparr>, calls = []\<rparr>"
      "updateModify \<lparr>Role = ''viewer'', Members = [''z'']\<rparr>"]
    orchestrator_commits_iff [of "storeUpdater ''projects/p''"
      "\<lparr>world = \<lparr>Etag = ''e'', Bindings = []\<rparr>, calls = []\<rparr>" failingModify]
    orchestrator_commits_iff [of "storeUpdater ''projects/p''"
      "\<lparr>world = \<lparr>Etag = ''e'', Bindings = []\<rparr>, calls = []\<rparr>"
      "updateModify \<lparr>Role = ''viewer'', Members = [''z'']\<rparr>"]
  by (simp add: brokenUpdater_def storeUpdater_def failingModify_def updateModify_def)


section \<open>Read\<close>

text \<open>
  C6. When the updater is built and its fetch returns a policy with no entry for the
  declared role, read sets the id to the empty string, leaves every other key alone and
  returns no error; the fetch is its only call.
\<close>

theorem read_absent_clears_id:
  assumes "newUpdaterFunc d config = Inr updater"
    and "GetResourceIamPolicy updater (world s) = (Inr p, w)"
    and "rd_role d \<notin> Role ` set (Bindings p)"
  shows "resourceIamBindingRead newUpdaterFunc config d s
           = (None, d\<lparr>rd_id := ''''\<rparr>, \<lparr>world = w, calls = calls s @ [FetchPolicy]\<rparr>)"
  using assms
  by (simp add: resourceIamBindingRead_def fetchPolicy_def getResourceIamBinding_def
      findBinding_absent)

theorem read_absent_clears_id_witness:
  "''editor'' \<notin> Role ` set [\<lparr>Role = ''viewer'', Members = [''x'']\<rparr>]
   \<and> resourceIamBindingRead (storeUpdaterFunc ''projects/p'') ()
        \<lparr>rd_id = ''projects/p/editor'', rd_role = ''editor'', rd_members = [''a''], rd_etag = ''e''\<rparr>
        \<lparr>world = \<lparr>Etag = ''f'', Bindings = [\<lparr>Role = ''viewer'', Members = [''x'']\<rparr>]\<rparr>, calls = []\<rparr>
     = (None,
        \<lparr>rd_id = '''', rd_role = ''editor'', rd_members = [''a''], rd_etag = ''e''\<rparr>,
        \<lparr>world = \<lparr>Etag = ''f'', Bindings = [\<lparr>Role = ''viewer'', Members = [''x'']\<rparr>]\<rparr>,
         calls = [FetchPolicy]\<rparr>)"
  using read_absent_clears_id [of "storeUpdaterFunc ''projects/p''"
      "\<lparr>rd_id = ''projects/p/editor'', rd_role = ''editor'', rd_members = [''a''], rd_etag = ''e''\<rparr>"
      "()" "storeUpdater ''projects/p''"
      "\<lparr>world = \<lparr>Etag = ''f'', Bindings = [\<lparr>Role = ''viewer'', Members = [''x'']\<rparr>]\<rparr>, calls = []\<rparr>"
      "\<lparr>Etag = ''f'', Bindings = [\<lparr>Role = ''viewer'', Members = [''x'']\<rparr>]\<rparr>"
      "\<lparr>Etag = ''f'', Bindings = [\<lparr>Role = ''viewer'', Members = [''x'']\<rparr>]\<rparr>"]
  by (simp add: storeUpdaterFunc_def storeUpdater_def)


section \<open>The closures never fail and keep the etag\<close>

lemma modify_no_error:
  "fst (createModify binding p) = None"
  "fst (updateModify binding p) = None"
  "fst (deleteModify binding p) = None"
  by (auto simp: createModify_def updateModify_def deleteModify_def Let_def split: option.splits)

lemma modify_keeps_Etag:
  "Etag (snd (createModify binding p)) = Etag p"
  "Etag (snd (updateModify binding p)) = Etag p"
  "Etag (snd (deleteModify binding p)) = Etag p"
  by (auto simp: createModify_def updateModify_def deleteModify_def Let_def split: option.splits)

lemma commit_after_fetch:
  assumes "GetResourceIamPolicy u (world s) = (Inr p, w)"
    and "fst (modify p) = None" "Etag (snd (modify p)) = Etag p"
  shows "calls (snd (iamPolicyReadModifyWrite u modify s))
           = calls s @ [FetchPolicy, CommitPolicy (snd (modify p))]"
proof -
  obtain p' where m: "modify p = (None, p')" using assms(2) by (cases "modify p") auto
  with assms(3) have "p'\<lparr>Etag := Etag p\<rparr> = p'" by simp
  then show ?thesis
    using iamPolicyReadModifyWrite_commit [where modify = modify, OF assms(1) m] m by simp
qed


section \<open>Calls to the updater per operation\<close>

lemma fetches_simps:
  "fetches [] = 0" "fetches (FetchPolicy # cs) = Suc (fetches cs)"
  "fetches (CommitPolicy q # cs) = fetches cs" "fetches (xs @ ys) = fetches xs + fetches ys"
  by (simp_all add: fetches_def)

lemma commits_simps:
  "commits [] = 0" "commits (FetchPolicy # cs) = commits cs"
  "commits (CommitPolicy q # cs) = Suc (commits cs)" "commits (xs @ ys) = commits xs + commits ys"
  by (simp_all add: commits_def)

lemma iamPolicyReadModifyWrite_calls:
  "\<exists>cs. calls (snd (iamPolicyReadModifyWrite u modify s)) = calls s @ cs
        \<and> fetches cs = 1 \<and> commits cs \<le> 1"
  by (auto simp: iamPolicyReadModifyWrite_def fetchPolicy_def commitPolicy_def
      fetches_simps commits_simps split: prod.splits sum.splits option.splits)

lemma resourceIamBindingRead_calls:
  "\<exists>cs. calls (snd (snd (resourceIamBindingRead newUpdaterFunc config d s))) = calls s @ cs
        \<and> fetches cs \<le> 1 \<and> commits cs = 0"
  by (auto simp: resourceIamBindingRead_def fetchPolicy_def Let_def
      fetches_simps commits_simps split: prod.splits sum.splits option.splits)

lemma cycle_then_read_calls:
  "\<exists>cs. calls (snd (snd (case iamPolicyReadModifyWrite u modify s of
                            (Some err, s1) \<Rightarrow> (Some err, d, s1)
                          | (None, s1) \<Rightarrow> resourceIamBindingRead newUpdaterFunc config d' s1)))
           = calls s @ cs
        \<and> fetches cs \<le> 2 \<and> commits cs \<le> 1"
proof -
  obtain r s1 where c: "iamPolicyReadModifyWrite u modify s = (r, s1)"
    by (cases "iamPolicyReadModifyWrite u modify s")
  obtain cs1 where c1: "calls s1 = calls s @ cs1" "fetches cs1 = 1" "commits cs1 \<le> 1"
    using iamPolicyReadModifyWrite_calls [of u modify s] c by auto
  show ?thesis
  proof (cases r)
    case (Some err)
    then show ?thesis using c c1 by simp
  next
    case None
    obtain cs2 where c2:
      "calls (snd (snd (resourceIamBindingRead newUpdaterFunc config d' s1))) = calls s1 @ cs2"
      "fetches cs2 \<le> 1" "commits cs2 = 0"
      using resourceIamBindingRead_calls [of newUpdaterFunc config d' s1] by auto
    have "calls (snd (snd (resourceIamBindingRead newUpdaterFunc config d' s1)))
            = calls s @ (cs1 @ cs2)"
      using c1(1) c2(1) by simp
    moreover have "fetches (cs1 @ cs2) \<le> 2" "commits (cs1 @ cs2) \<le> 1"
      using c1 c2 by (simp_all add: fetches_simps commits_simps)
    ultimately show ?thesis using c None by auto
  qed
qed

lemma no_call: "\<exists>cs. calls s = calls s @ cs \<and> fetches cs \<le> 2 \<and> commits cs \<le> 1"
  by (rule exI [of _ "[]"]) (simp add: fetches_simps commits_simps)

lemma resourceIamBindingCreate_calls:
  "\<exists>cs. calls (snd (snd (resourceIamBindingCreate newUpdaterFunc config d s))) = calls s @ cs
        \<and> fetches cs \<le> 2 \<and> commits cs \<le> 1"
proof (cases "newUpdaterFunc d config")
  case (Inl err)
  then show ?thesis using no_call [of s] by (simp add: resourceIamBindingCreate_def)
next
  case (Inr u)
  then show ?thesis
    using cycle_then_read_calls [where u = u and modify = "createModify (getResourceIamBinding d)"
        and s = s and d = d and newUpdaterFunc = newUpdaterFunc and config = config
        and d' = "d\<lparr>rd_id := GetResourceId u @ ''/'' @ Role (getResourceIamBinding d)\<rparr>"]
    by (simp add: resourceIamBindingCreate_def Let_def)
qed

lemma resourceIamBindingUpdate_calls:
  "\<exists>cs. calls (snd (snd (resourceIamBindingUpdate newUpdaterFunc config d s))) = calls s @ cs
        \<and> fetches cs \<le> 2 \<and> commits cs \<le> 1"
proof (cases "newUpdaterFunc d config")
  case (Inl err)
  then show ?thesis using no_call [of s] by (simp add: resourceIamBindingUpdate_def)
next
  case (Inr u)
  then show ?thesis
    using cycle_then_read_calls [where u = u and modify = "updateModify (getResourceIamBinding d)"
        and s = s and d = d and newUpdaterFunc = newUpdaterFunc and config = config and d' = d]
    by (simp add: resourceIamBindingUpdate_def Let_def)
qed

lemma resourceIamBindingDelete_calls:
  "\<exists>cs. calls (snd (snd (resourceIamBindingDelete newUpdaterFunc config d s))) = calls s @ cs
        \<and> fetches cs \<le> 2 \<and> commits cs \<le> 1"
proof (cases "newUpdaterFunc d config")
  case (Inl err)
  then show ?thesis using no_call [of s] by (simp add: resourceIamBindingDelete_def)
next
  case (Inr u)
  then show ?thesis
    using cycle_then_read_calls [where u = u and modify = "deleteModify (getResourceIamBinding d)"
        and s = s and d = d and newUpdaterFunc = newUpdaterFunc and config = config and d' = d]
    by (simp add: resourceIamBindingDelete_def Let_def)
qed

text \<open>
  The claim read on create: at most one fetch per invocation. A create that succeeds
  fetches once inside its read-modify-write cycle and once more in the read it ends with.
\<close>

theorem create_fetches_twice_counterexample:
  "\<not> fetches (callsSince \<lparr>world = \<lparr>Etag = ''e'', Bindings = []\<rparr>, calls = []\<rparr>
        (snd (snd (resourceIamBindingCreate (storeUpdaterFunc ''projects/p'') ()
           \<lparr>rd_id = '''', rd_role = ''viewer'', rd_members = [''a'', ''b''], rd_etag = ''''\<rparr>
           \<lparr>world = \<lparr>Etag = ''e'', Bindings = []\<rparr>, calls = []\<rparr>)))) \<le> 1"
  by (simp add: resourceIamBindingCreate_def resourceIamBindingRead_def storeUpdaterFunc_def
      storeUpdater_def iamPolicyReadModifyWrite_def fetchPolicy_def commitPolicy_def
      createModify_def getResourceIamBinding_def mergeBindings_def roleMembers_def
      callsSince_def fetches_def Let_def)

text \<open>
  C8 (amended). Read makes at most one fetch and no commit. Each of create, update and
  delete makes at most two fetches (one in its read-modify-write cycle, one in the read that
  follows a cycle without error) and at most one commit.
\<close>

theorem calls_per_operation:
  "fetches (callsSince s (snd (snd (resourceIamBindingRead newUpdaterFunc config d s)))) \<le> 1
   \<and> commits (callsSince s (snd (snd (resourceIamBindingRead newUpdaterFunc config d s)))) = 0
   \<and> fetches (callsSince s (snd (snd (resourceIamBindingCreate newUpdaterFunc config d s)))) \<le> 2
   \<and> commits (callsSince s (snd (snd (resourceIamBindingCreate newUpdaterFunc config d s)))) \<le> 1
   \<and> fetches (callsSince s (snd (snd (resourceIamBindingUpdate newUpdaterFunc config d s)))) \<le> 2
   \<and> commits (callsSince s (snd (snd (resourceIamBindingUpdate newUpdaterFunc config d s)))) \<le> 1
   \<and> fetches (callsSince s (snd (snd (resourceIamBindingDelete newUpdaterFunc config d s)))) \<le> 2
   \<and> commits (callsSince s (snd (snd (resourceIamBindingDelete newUpdaterFunc config d s)))) \<le> 1"
proof -
  obtain r where "calls (snd (snd (resourceIamBindingRead newUpdaterFunc config d s))) = calls s @ r"
    "fetches r \<le> 1" "commits r = 0"
    using resourceIamBindingRead_calls [of newUpdaterFunc config d s] by auto
  moreover obtain c where "calls (snd (snd (resourceIamBindingCreate newUpdaterFunc config d s))) = calls s @ c"
    "fetches c \<le> 2" "commits c \<le> 1"
    using resourceIamBindingCreate_calls [of newUpdaterFunc config d s] by auto
  moreover obtain u where "calls (snd (snd (resourceIamBindingUpdate newUpdaterFunc config d s))) = calls s @ u"
    "fetches u \<le> 2" "commits u \<le> 1"
    using resourceIamBindingUpdate_calls [of newUpdaterFunc config d s] by auto
  moreover obtain e where "calls (snd (snd (resourceIamBindingDelete newUpdaterFunc config d s))) = calls s @ e"
    "fetches e \<le> 2" "commits e \<le> 1"
    using resourceIamBindingDelete_calls [of newUpdaterFunc config d s] by auto
  ultimately show ?thesis by (simp add: callsSince_append)
qed

theorem calls_per_operation_witness:
  "callsSince \<lparr>world = \<lparr>Etag = ''e'', Bindings = []\<rparr>, calls = []\<rparr>
        (snd (snd (resourceIamBindingUpdate (storeUpdaterFunc ''projects/p'') ()
           \<lparr>rd_id = '''', rd_role = ''viewer'', rd_members = [''a'', ''b''], rd_etag = ''''\<rparr>
           \<lparr>world = \<lparr>Etag = ''e'', Bindings = []\<rparr>, calls = []\<rparr>)))
     = [FetchPolicy,
        CommitPolicy \<lparr>Etag = ''e'', Bindings = [\<lparr>Role = ''viewer'', Members = [''a'', ''b'']\<rparr>]\<rparr>,
        FetchPolicy]
   \<and> fetches (callsSince \<lparr>world = \<lparr>Etag = ''e'', Bindings = []\<rparr>, calls = []\<rparr>
        (snd (snd (resourceIamBindingUpdate (storeUpdaterFunc ''projects/p'') ()
           \<lparr>rd_id = '''', rd_role = ''viewer'', rd_members = [''a'', ''b''], rd_etag = ''''\<rparr>
           \<lparr>world = \<lparr>Etag = ''e'', Bindings = []\<rparr>, calls = []\<rparr>)))) \<le> 2"
  using calls_per_operation [of "\<lparr>world = \<lparr>Etag = ''e'', Bindings = []\<rparr>, calls = []\<rparr>"
      "storeUpdaterFunc ''projects/p''" "()"
      "\<lparr>rd_id = '''', rd_role = ''viewer'', rd_members = [''a'', ''b''], rd_etag = ''''\<rparr>"]
  by (simp add: resourceIamBindingUpdate_def resourceIamBindingRead_def storeUpdaterFunc_def
      storeUpdater_def iamPolicyReadModifyWrite_def fetchPolicy_def commitPolicy_def
      updateModify_def getResourceIamBinding_def callsSince_def Let_def)


section \<open>Create followed by its read\<close>

lemma findBinding_map:
  "findBinding r (map (\<lambda>x. \<lparr>Role = x, Members = g x\<rparr>) xs)
     = (if r \<in> set xs then Some \<lparr>Role = r, Members = g r\<rparr> else None)"
  by (induction xs) auto

lemma findBinding_mergeBindings:
  "r \<in> Role ` set bs \<Longrightarrow>
     findBinding r (mergeBindings bs) = Some \<lparr>Role = r, Members = remdups (roleMembers r bs)\<rparr>"
  by (simp add: mergeBindings_def findBinding_map)

text \<open>
  The claim read on every remote policy: after a successful create, the observed members
  are the declared ones. Against a policy that already grants the role to a member outside
  the declared set, create keeps that member and the read reports it.
\<close>

theorem create_keeps_earlier_members_counterexample:
  "fst (resourceIamBindingCreate (storeUpdaterFunc ''projects/p'') ()
        \<lparr>rd_id = '''', rd_role = ''viewer'', rd_members = [''y'', ''z''], rd_etag = ''''\<rparr>
        \<lparr>world = \<lparr>Etag = ''e'', Bindings = [\<lparr>Role = ''viewer'', Members = [''x'', ''y'']\<rparr>]\<rparr>,
         calls = []\<rparr>) = None
   \<and> set (rd_members (fst (snd (resourceIamBindingCreate (storeUpdaterFunc ''projects/p'') ()
        \<lparr>rd_id = '''', rd_role = ''viewer'', rd_members = [''y'', ''z''], rd_etag = ''''\<rparr>
        \<lparr>world = \<lparr>Etag = ''e'', Bindings = [\<lparr>Role = ''viewer'', Members = [''x'', ''y'']\<rparr>]\<rparr>,
         calls = []\<rparr>)))) \<noteq> {''y'', ''z''}"
proof -
  have r: "resourceIamBindingCreate (storeUpdaterFunc ''projects/p'') ()
        \<lparr>rd_id = '''', rd_role = ''viewer'', rd_members = [''y'', ''z''], rd_etag = ''''\<rparr>
        \<lparr>world = \<lparr>Etag = ''e'', Bindings = [\<lparr>Role = ''viewer'', Members = [''x'', ''y'']\<rparr>]\<rparr>,
         calls = []\<rparr>
     = (None,
        \<lparr>rd_id = ''projects/p/viewer'', rd_role = ''viewer'', rd_members = [''x'', ''y'', ''z''],
         rd_etag = ''e+''\<rparr>,
        \<lparr>world = \<lparr>Etag = ''e+'', Bindings = [\<lparr>Role = ''viewer'', Members = [''x'', ''y'', ''z'']\<rparr>]\<rparr>,
         calls = [FetchPolicy,
                  CommitPolicy \<lparr>Etag = ''e'', Bindings = [\<lparr>Role = ''viewer'', Members = [''x'', ''y'', ''z'']\<rparr>]\<rparr>,
                  FetchPolicy]\<rparr>)"
    by (simp add: resourceIamBindingCreate_def resourceIamBindingRead_def storeUpdaterFunc_def
        storeUpdater_def iamPolicyReadModifyWrite_def fetchPolicy_def commitPolicy_def
        createModify_def getResourceIamBinding_def mergeBindings_def roleMembers_def Let_def)
  have "''x'' \<in> set [''x'', ''y'', ''z'']" by simp
  moreover have "''x'' \<notin> {''y'', ''z''}" by simp
  ultimately have "set [''x'', ''y'', ''z''] \<noteq> {''y'', ''z''}" by metis
  then show ?thesis by (simp only: r fst_conv snd_conv ResourceData.simps simp_thms)
qed

text \<open>
  C7 (amended). Let create succeed: the updater is built, the fetch of the cycle returns a
  policy, the commit of the merged policy is accepted, and the read that create ends with
  builds its updater and fetches a policy holding the bindings that were committed. Then
  create returns no error; the id is the resource id of the updater, a slash and the
  declared role; the observed role is the declared role; the observed etag is the etag of
  the policy that the read fetched; and the observed members are the declared members
  together with the members the role had before, so they are exactly the declared members
  when the role had no member outside the declared set.
\<close>

theorem create_then_read:
  assumes "newUpdaterFunc d config = Inr u"
    and "GetResourceIamPolicy u (world s) = (Inr p0, w1)"
    and "SetResourceIamPolicy u
           (p0\<lparr>Bindings := mergeBindings (Bindings p0 @ [getResourceIamBinding d])\<rparr>) w1 = (None, w2)"
    and "newUpdaterFunc (d\<lparr>rd_id := GetResourceId u @ ''/'' @ rd_role d\<rparr>) config = Inr u'"
    and "GetResourceIamPolicy u' w2 = (Inr p2, w3)"
    and "Bindings p2 = mergeBindings (Bindings p0 @ [getResourceIamBinding d])"
  shows "\<exists>d' s'. resourceIamBindingCreate newUpdaterFunc config d s = (None, d', s')
           \<and> rd_id d' = GetResourceId u @ ''/'' @ rd_role d
           \<and> rd_role d' = rd_role d
           \<and> rd_etag d' = Etag p2
           \<and> set (rd_members d') = set (roleMembers (rd_role d) (Bindings p0)) \<union> set (rd_members d)
           \<and> (set (roleMembers (rd_role d) (Bindings p0)) \<subseteq> set (rd_members d)
                \<longrightarrow> set (rd_members d') = set (rd_members d))"
proof -
  let ?b = "getResourceIamBinding d"
  let ?q = "p0\<lparr>Bindings := mergeBindings (Bindings p0 @ [?b])\<rparr>"
  let ?s1 = "\<lparr>world = w2, calls = calls s @ [FetchPolicy, CommitPolicy ?q]\<rparr>"
  let ?d1 = "d\<lparr>rd_id := GetResourceId u @ ''/'' @ rd_role d\<rparr>"
  have m: "createModify ?b p0 = (None, ?q)" by (simp add: createModify_def)
  have cyc: "iamPolicyReadModifyWrite u (createModify ?b) s = (None, ?s1)"
    using iamPolicyReadModifyWrite_commit [where modify = "createModify ?b", OF assms(2) m] assms(3)
    by simp
  have role: "Role ?b = rd_role d" by (simp add: getResourceIamBinding_def)
  have "rd_role d \<in> Role ` set (Bindings p0 @ [?b])" using role by simp
  then have fb: "findBinding (rd_role d) (Bindings p2)
      = Some \<lparr>Role = rd_role d, Members = remdups (roleMembers (rd_role d) (Bindings p0 @ [?b]))\<rparr>"
    using assms(6) by (simp add: findBinding_mergeBindings)
  have rm: "roleMembers (rd_role d) (Bindings p0 @ [?b])
      = roleMembers (rd_role d) (Bindings p0) @ rd_members d"
    by (simp add: roleMembers_append roleMembers_Cons roleMembers_Nil getResourceIamBinding_def)
  have rd: "resourceIamBindingRead newUpdaterFunc config ?d1 ?s1
      = (None, ?d1\<lparr>rd_etag := Etag p2,
                    rd_members := remdups (remdups (roleMembers (rd_role d) (Bindings p0) @ rd_members d)),
                    rd_role := rd_role d\<rparr>,
         \<lparr>world = w3, calls = calls ?s1 @ [FetchPolicy]\<rparr>)"
    using assms(4,5) fb rm
    by (simp add: resourceIamBindingRead_def fetchPolicy_def getResourceIamBinding_def)
  have "resourceIamBindingCreate newUpdaterFunc config d s
      = resourceIamBindingRead newUpdaterFunc config ?d1 ?s1"
    using assms(1) cyc role by (simp add: resourceIamBindingCreate_def Let_def)
  with rd show ?thesis by auto
qed

theorem create_then_read_witness:
  "resourceIamBindingCreate (storeUpdaterFunc ''projects/p'') ()
        \<lparr>rd_id = '''', rd_role = ''viewer'', rd_members = [''a'', ''b''], rd_etag = ''''\<rparr>
        \<lparr>world = \<lparr>Etag = ''e'', Bindings = [\<lparr>Role = ''owner'', Members = [''w'']\<rparr>]\<rparr>, calls = []\<rparr>
     = (None,
        \<lparr>rd_id = ''projects/p/viewer'', rd_role = ''viewer'', rd_members = [''a'', ''b''],
         rd_etag = ''e+''\<rparr>,
        \<lparr>world = \<lparr>Etag = ''e+'', Bindings = [\<lparr>Role = ''owner'', Members = [''w'']\<rparr>,
                                             \<lparr>Role = ''viewer'', Members = [''a'', ''b'']\<rparr>]\<rparr>,
         calls = [FetchPolicy,
                  CommitPolicy \<lparr>Etag = ''e'', Bindings = [\<lparr>Role = ''owner'', Members = [''w'']\<rparr>,
                                                        \<lparr>Role = ''viewer'', Members = [''a'', ''b'']\<rparr>]\<rparr>,
                  FetchPolicy]\<rparr>)
   \<and> set (roleMembers ''viewer'' [\<lparr>Role = ''owner'', Members = [''w'']\<rparr>]) \<subseteq> set [''a'', ''b'']"
  using create_then_read [of "storeUpdaterFunc ''projects/p''"
      "\<lparr>rd_id = '''', rd_role = ''viewer'', rd_members = [''a'', ''b''], rd_etag = ''''\<rparr>" "()"
      "storeUpdater ''projects/p''"
      "\<lparr>world = \<lparr>Etag = ''e'', Bindings = [\<lparr>Role = ''owner'', Members = [''w'']\<rparr>]\<rparr>, calls = []\<rparr>"
      "\<lparr>Etag = ''e'', Bindings = [\<lparr>Role = ''owner'', Members = [''w'']\<rparr>]\<rparr>"
      "\<lparr>Etag = ''e'', Bindings = [\<lparr>Role = ''owner'', Members = [''w'']\<rparr>]\<rparr>"
      "\<lparr>Etag = ''e+'', Bindings = [\<lparr>Role = ''owner'', Members = [''w'']\<rparr>,
                                   \<lparr>Role = ''viewer'', Members = [''a'', ''b'']\<rparr>]\<rparr>"
      "storeUpdater ''projects/p''"
      "\<lparr>Etag = ''e+'', Bindings = [\<lparr>Role = ''owner'', Members = [''w'']\<rparr>,
                                   \<lparr>Role = ''viewer'', Members = [''a'', ''b'']\<rparr>]\<rparr>"
      "\<lparr>Etag = ''e+'', Bindings = [\<lparr>Role = ''owner'', Members = [''w'']\<rparr>,
                                   \<lparr>Role = ''viewer'', Members = [''a'', ''b'']\<rparr>]\<rparr>"]
  by (simp add: resourceIamBindingCreate_def resourceIamBindingRead_def storeUpdaterFunc_def
      storeUpdater_def iamPolicyReadModifyWrite_def fetchPolicy_def commitPolicy_def
      createModify_def getResourceIamBinding_def mergeBindings_def roleMembers_def Let_def)


section \<open>The write operations commit after every successful fetch\<close>

lemma cycle_then_read_commits:
  assumes "GetResourceIamPolicy u (world s) = (Inr q, w)"
    and "fst (modify q) = None" "Etag (snd (modify q)) = Etag q"
  shows "take 2 (callsSince s (snd (snd (case iamPolicyReadModifyWrite u modify s of
                            (Some err, s1) \<Rightarrow> (Some err, d, s1)
                          | (None, s1) \<Rightarrow> resourceIamBindingRead newUpdaterFunc config d' s1))))
           = [FetchPolicy, CommitPolicy (snd (modify q))]"
proof -
  obtain r s1 where c: "iamPolicyReadModifyWrite u modify s = (r, s1)"
    by (cases "iamPolicyReadModifyWrite u modify s")
  have c1: "calls s1 = calls s @ [FetchPolicy, CommitPolicy (snd (modify q))]"
    using commit_after_fetch [where modify = modify, OF assms] c by simp
  show ?thesis
  proof (cases r)
    case (Some err)
    then show ?thesis using c c1 by (simp add: callsSince_def)
  next
    case None
    obtain cs2 where
      "calls (snd (snd (resourceIamBindingRead newUpdaterFunc config d' s1))) = calls s1 @ cs2"
      using resourceIamBindingRead_calls [of newUpdaterFunc config d' s1] by auto
    then show ?thesis using c c1 None by (simp add: callsSince_def)
  qed
qed

text \<open>
  C9. The closures of create, update and delete return no error on every policy. So the
  mutation step never aborts the cycle: run with any of the three closures, the cycle calls
  the commit whenever its fetch succeeds, with the policy the closure left. And in each of
  the three operations create, update and delete, whenever the updater is built and the
  fetch of the policy succeeds, the first two calls of the operation are that fetch and
  the commit of the policy that the operation's closure made of the fetched one.
\<close>

theorem operations_commit_after_fetch:
  "fst (createModify binding p) = None
   \<and> fst (updateModify binding p) = None
   \<and> fst (deleteModify binding p) = None
   \<and> (\<forall>u q w. GetResourceIamPolicy u (world s) = (Inr q, w) \<longrightarrow>
         calls (snd (iamPolicyReadModifyWrite u (createModify binding) s))
           = calls s @ [FetchPolicy, CommitPolicy (snd (createModify binding q))]
       \<and> calls (snd (iamPolicyReadModifyWrite u (updateModify binding) s))
           = calls s @ [FetchPolicy, CommitPolicy (snd (updateModify binding q))]
       \<and> calls (snd (iamPolicyReadModifyWrite u (deleteModify binding) s))
           = calls s @ [FetchPolicy, CommitPolicy (snd (deleteModify binding q))])
   \<and> (\<forall>u q w. newUpdaterFunc d config = Inr u \<and> GetResourceIamPolicy u (world s) = (Inr q, w) \<longrightarrow>
         take 2 (callsSince s (snd (snd (resourceIamBindingCreate newUpdaterFunc config d s))))
           = [FetchPolicy, CommitPolicy (snd (createModify (getResourceIamBinding d) q))]
       \<and> take 2 (callsSince s (snd (snd (resourceIamBindingUpdate newUpdaterFunc config d s))))
           = [FetchPolicy, CommitPolicy (snd (updateModify (getResourceIamBinding d) q))]
       \<and> take 2 (callsSince s (snd (snd (resourceIamBindingDelete newUpdaterFunc config d s))))
           = [FetchPolicy, CommitPolicy (snd (deleteModify (getResourceIamBinding d) q))])"
proof -
  have cyc: "\<forall>u q w. GetResourceIamPolicy u (world s) = (Inr q, w) \<longrightarrow>
         calls (snd (iamPolicyReadModifyWrite u (createModify binding) s))
           = calls s @ [FetchPolicy, CommitPolicy (snd (createModify binding q))]
       \<and> calls (snd (iamPolicyReadModifyWrite u (updateModify binding) s))
           = calls s @ [FetchPolicy, CommitPolicy (snd (updateModify binding q))]
       \<and> calls (snd (iamPolicyReadModifyWrite u (deleteModify binding) s))
           = calls s @ [FetchPolicy, CommitPolicy (snd (deleteModify binding q))]"
    using commit_after_fetch [where s = s and modify = "createModify binding"]
      commit_after_fetch [where s = s and modify = "updateModify binding"]
      commit_after_fetch [where s = s and modify = "deleteModify binding"]
    by (simp add: modify_no_error modify_keeps_Etag)
  have ops: "\<forall>u q w. newUpdaterFunc d config = Inr u \<and> GetResourceIamPolicy u (world s) = (Inr q, w) \<longrightarrow>
         take 2 (callsSince s (snd (snd (resourceIamBindingCreate newUpdaterFunc config d s))))
           = [FetchPolicy, CommitPolicy (snd (createModify (getResourceIamBinding d) q))]
       \<and> take 2 (callsSince s (snd (snd (resourceIamBindingUpdate newUpdaterFunc config d s))))
           = [FetchPolicy, CommitPolicy (snd (updateModify (getResourceIamBinding d) q))]
       \<and> take 2 (callsSince s (snd (snd (resourceIamBindingDelete newUpdaterFunc config d s))))
           = [FetchPolicy, CommitPolicy (snd (deleteModify (getResourceIamBinding d) q))]"
  proof (intro allI impI)
    fix u q w
    assume a: "newUpdaterFunc d config = Inr u \<and> GetResourceIamPolicy u (world s) = (Inr q, w)"
    then have n: "newUpdaterFunc d config = Inr u"
      and g: "GetResourceIamPolicy u (world s) = (Inr q, w)" by simp_all
    let ?b = "getResourceIamBinding d"
    have c: "take 2 (callsSince s (snd (snd (resourceIamBindingCreate newUpdaterFunc config d s))))
           = [FetchPolicy, CommitPolicy (snd (createModify ?b q))]"
      using cycle_then_read_commits [where modify = "createModify ?b" and d = d
          and newUpdaterFunc = newUpdaterFunc and config = config
          and d' = "d\<lparr>rd_id := GetResourceId u @ ''/'' @ Role ?b\<rparr>", OF g]
      by (simp add: resourceIamBindingCreate_def Let_def n modify_no_error modify_keeps_Etag)
    have up: "take 2 (callsSince s (snd (snd (resourceIamBindingUpdate newUpdaterFunc config d s))))
           = [FetchPolicy, CommitPolicy (snd (updateModify ?b q))]"
      using cycle_then_read_commits [where modify = "updateModify ?b" and d = d
          and newUpdaterFunc = newUpdaterFunc and config = config and d' = d, OF g]
      by (simp add: resourceIamBindingUpdate_def Let_def n modify_no_error modify_keeps_Etag)
    have de: "take 2 (callsSince s (snd (snd (resourceIamBindingDelete newUpdaterFunc config d s))))
           = [FetchPolicy, CommitPolicy (snd (deleteModify ?b q))]"
      using cycle_then_read_commits [where modify = "deleteModify ?b" and d = d
          and newUpdaterFunc = newUpdaterFunc and config = config and d' = d, OF g]
      by (simp add: resourceIamBindingDelete_def Let_def n modify_no_error modify_keeps_Etag)
    from c up de show "take 2 (callsSince s (snd (snd (resourceIamBindingCreate newUpdaterFunc config d s))))
           = [FetchPolicy, CommitPolicy (snd (createModify ?b q))]
       \<and> take 2 (callsSince s (snd (snd (resourceIamBindingUpdate newUpdaterFunc config d s))))
           = [FetchPolicy, CommitPolicy (snd (updateModify ?b q))]
       \<and> take 2 (callsSince s (snd (snd (resourceIamBindingDelete newUpdaterFunc config d s))))
           = [FetchPolicy, CommitPolicy (snd (deleteModify ?b q))]" by simp
  qed
  show ?thesis using cyc ops by (simp only: modify_no_error simp_thms)
qed

theorem operations_commit_after_fetch_witness:
  "callsSince \<lparr>world = \<lparr>Etag = ''e'', Bindings = [\<lparr>Role = ''owner'', Members = [''w'']\<rparr>,
                                                  \<lparr>Role = ''viewer'', Members = [''x'', ''y'']\<rparr>]\<rparr>,
               calls = []\<rparr>
        (snd (snd (resourceIamBindingCreate (storeUpdaterFunc ''projects/p'') ()
           \<lparr>rd_id = '''', rd_role = ''viewer'', rd_members = [''y'', ''z''], rd_etag = ''''\<rparr>
           \<lparr>world = \<lparr>Etag = ''e'', Bindings = [\<lparr>Role = ''owner'', Members = [''w'']\<rparr>,
                                              \<lparr>Role = ''viewer'', Members = [''x'', ''y'']\<rparr>]\<rparr>,
            calls = []\<rparr>)))
     = [FetchPolicy,
        CommitPolicy \<lparr>Etag = ''e'', Bindings = [\<lparr>Role = ''owner'', Members = [''w'']\<rparr>,
                                              \<lparr>Role = ''viewer'', Members = [''x'', ''y'', ''z'']\<rparr>]\<rparr>,
        FetchPolicy]
   \<and> callsSince \<lparr>world = \<lparr>Etag = ''e'', Bindings = [\<lparr>Role = ''owner'', Members = [''w'']\<rparr>,
                                                  \<lparr>Role = ''viewer'', Members = [''x'', ''y'']\<rparr>]\<rparr>,
               calls = []\<rparr>
        (snd (snd (resourceIamBindingUpdate (storeUpdaterFunc ''projects/p'') ()
           \<lparr>rd_id = '''', rd_role = ''viewer'', rd_members = [''y'', ''z''], rd_etag = ''''\<rparr>
           \<lparr>world = \<lparr>Etag = ''e'', Bindings = [\<lparr>Role = ''owner'', Members = [''w'']\<rparr>,
                                              \<lparr>Role = ''viewer'', Members = [''x'', ''y'']\<rparr>]\<rparr>,
            calls = []\<rparr>)))
     = [FetchPolicy,
        CommitPolicy \<lparr>Etag = ''e'', Bindings = [\<lparr>Role = ''owner'', Members = [''w'']\<rparr>,
                                              \<lparr>Role = ''viewer'', Members = [''y'', ''z'']\<rparr>]\<rparr>,
        FetchPolicy]
   \<and> callsSince \<lparr>world = \<lparr>Etag = ''e'', Bindings = [\<lparr>Role = ''owner'', Members = [''w'']\<rparr>,
                                                  \<lparr>Role = ''viewer'', Members = [''x'', ''y'']\<rparr>]\<rparr>,
               calls = []\<rparr>
        (snd (snd (resourceIamBindingDelete (storeUpdaterFunc ''projects/p'') ()
           \<lparr>rd_id = '''', rd_role = ''viewer'', rd_members = [''y'', ''z''], rd_etag = ''''\<rparr>
           \<lparr>world = \<lparr>Etag = ''e'', Bindings = [\<lparr>Role = ''owner'', Members = [''w'']\<rparr>,
                                              \<lparr>Role = ''viewer'', Members = [''x'', ''y'']\<rparr>]\<rparr>,
            calls = []\<rparr>)))
     = [FetchPolicy,
        CommitPolicy \<lparr>Etag = ''e'', Bindings = [\<lparr>Role = ''owner'', Members = [''w'']\<rparr>]\<rparr>,
        FetchPolicy]"
  using operations_commit_after_fetch [where
      s = "\<lparr>world = \<lparr>Etag = ''e'', Bindings = [\<lparr>Role = ''owner'', Members = [''w'']\<rparr>,
                                              \<lparr>Role = ''viewer'', Members = [''x'', ''y'']\<rparr>]\<rparr>,
            calls = []\<rparr>"
      and newUpdaterFunc = "storeUpdaterFunc ''projects/p''" and config = "()"
      and d = "\<lparr>rd_id = '''', rd_role = ''viewer'', rd_members = [''y'', ''z''], rd_etag = ''''\<rparr>"]
  by (simp add: resourceIamBindingCreate_def resourceIamBindingUpdate_def
      resourceIamBindingDelete_def resourceIamBindingRead_def storeUpdaterFunc_def
      storeUpdater_def iamPolicyReadModifyWrite_def fetchPolicy_def commitPolicy_def
      createModify_def updateModify_def deleteModify_def getResourceIamBinding_def
      mergeBindings_def roleMembers_def callsSince_def Let_def)

end
